theory Spec2Isabelle
  imports Main
begin

section \<open>Python strings\<close>

text \<open>
  A Python \<open>str\<close> is modelled as a \<open>string\<close>, a list of characters. A \<open>char\<close> of HOL has
  eight bits, so the model covers the texts whose code points are below 256; the two line
  separators U+2028 and U+2029 of \<open>str.splitlines\<close> and the white space beyond U+00FF are
  outside of it.
\<close>

datatype error = AssertionError | ValueError | IndexError | TypeError

definition is_space :: "char \<Rightarrow> bool" where
  \<comment> \<open>\<open>str.isspace\<close> on one code point below 256\<close>
  "is_space c = (c \<in> set [CHR 0x09, CHR 0x0A, CHR 0x0B, CHR 0x0C, CHR 0x0D,
                          CHR 0x1C, CHR 0x1D, CHR 0x1E, CHR 0x1F, CHR 0x20, CHR 0x85, CHR 0xA0])"

definition is_linebreak :: "char \<Rightarrow> bool" where
  \<comment> \<open>the line boundaries of \<open>str.splitlines\<close> below 256\<close>
  "is_linebreak c = (c \<in> set [CHR 0x0A, CHR 0x0D, CHR 0x0B, CHR 0x0C,
                              CHR 0x1C, CHR 0x1D, CHR 0x1E, CHR 0x85])"

definition lstrip :: "string \<Rightarrow> string" where
  "lstrip s = dropWhile is_space s"

definition rstrip :: "string \<Rightarrow> string" where
  "rstrip s = rev (dropWhile is_space (rev s))"

definition strip :: "string \<Rightarrow> string" where
  \<comment> \<open>\<open>str.strip()\<close>\<close>
  "strip s = lstrip (rstrip s)"

text \<open>
  \<open>str.splitlines(keepends)\<close>: the text is cut after every line boundary, a carriage return
  followed by a line feed is one boundary, and there is no empty last line. \<open>cur\<close> is the line
  read so far.
\<close>

fun splitlines_from :: "bool \<Rightarrow> string \<Rightarrow> string \<Rightarrow> string list" where
  "splitlines_from keepends cur [] = (if cur = [] then [] else [cur])"
| "splitlines_from keepends cur [c] =
     (if is_linebreak c then [cur @ (if keepends then [c] else [])] else [cur @ [c]])"
| "splitlines_from keepends cur (c # d # cs) =
     (if c = CHR 0x0D \<and> d = CHR 0x0A
        then (cur @ (if keepends then [c, d] else [])) # splitlines_from keepends [] cs
      else if is_linebreak c
        then (cur @ (if keepends then [c] else [])) # splitlines_from keepends [] (d # cs)
      else splitlines_from keepends (cur @ [c]) (d # cs))"

definition splitlines :: "bool \<Rightarrow> string \<Rightarrow> string list" where
  "splitlines keepends text = splitlines_from keepends [] text"

fun py_join :: "string \<Rightarrow> string list \<Rightarrow> string" where
  \<comment> \<open>\<open>sep.join(parts)\<close>\<close>
  "py_join sep [] = []"
| "py_join sep [p] = p"
| "py_join sep (p # q # ps) = p @ sep @ py_join sep (q # ps)"

section \<open>The shell lexer\<close>

text \<open>
  \<open>shlex.split(s)\<close> of the standard library, in its default POSIX mode: white space is
  space, tab, carriage return and line feed, the quotes are \<open>'\<close> and \<open>"\<close>, the escape is the
  backslash and it keeps its meaning inside double quotes only, there are no comment
  characters, and every other character is part of a word. The lexer is the state machine of
  \<open>shlex.read_token\<close>, run until the input ends: \<open>st\<close> is the lexer's state, \<open>esc\<close> the state an
  escape returns to, \<open>quoted\<close> says that the token met a quote, \<open>tok\<close> is the token read so far.
\<close>

datatype lex_state = St_space | St_word | St_quote char | St_escape

definition sh_whitespace :: "char \<Rightarrow> bool" where
  "sh_whitespace c = (c \<in> set [CHR 0x20, CHR 0x09, CHR 0x0D, CHR 0x0A])"

definition sh_quote :: "char \<Rightarrow> bool" where
  "sh_quote c = (c \<in> set [CHR 0x27, CHR 0x22])"

definition sh_escape :: "char \<Rightarrow> bool" where
  "sh_escape c = (c = CHR 0x5C)"

definition sh_escapedquote :: "char \<Rightarrow> bool" where
  "sh_escapedquote c = (c = CHR 0x22)"

definition emit :: "bool \<Rightarrow> string \<Rightarrow> error + string list \<Rightarrow> error + string list" where
  \<comment> \<open>the end of \<open>read_token\<close>: an unquoted empty token is the end of the input\<close>
  "emit quoted tok rest =
     (if \<not> quoted \<and> tok = [] then Inr []
      else case rest of Inl e \<Rightarrow> Inl e | Inr ts \<Rightarrow> Inr (tok # ts))"

fun read_tokens ::
  "lex_state \<Rightarrow> lex_state \<Rightarrow> bool \<Rightarrow> string \<Rightarrow> string \<Rightarrow> error + string list" where
  "read_tokens st esc quoted tok [] =
     (case st of
        St_space \<Rightarrow> emit quoted tok (Inr [])
      | St_word \<Rightarrow> emit quoted tok (Inr [])
      | St_quote q \<Rightarrow> Inl ValueError
      | St_escape \<Rightarrow> Inl ValueError)"
| "read_tokens st esc quoted tok (c # cs) =
     (case st of
        St_space \<Rightarrow>
          if sh_whitespace c then
            (if tok \<noteq> [] \<or> quoted
               then emit quoted tok (read_tokens St_space St_space False [] cs)
             else read_tokens St_space esc quoted tok cs)
          else if sh_escape c then read_tokens St_escape St_word quoted tok cs
          else if sh_quote c then read_tokens (St_quote c) esc quoted tok cs
          else read_tokens St_word esc quoted [c] cs
      | St_quote q \<Rightarrow>
          if c = q then read_tokens St_word esc True tok cs
          else if sh_escape c \<and> sh_escapedquote q
            then read_tokens St_escape (St_quote q) True tok cs
          else read_tokens (St_quote q) esc True (tok @ [c]) cs
      | St_escape \<Rightarrow>
          (case esc of
             St_quote q \<Rightarrow>
               read_tokens esc esc quoted
                 ((if \<not> sh_escape c \<and> c \<noteq> q then tok @ [CHR 0x5C] else tok) @ [c]) cs
           | _ \<Rightarrow> read_tokens esc esc quoted (tok @ [c]) cs)
      | St_word \<Rightarrow>
          if sh_whitespace c then
            (if tok \<noteq> [] \<or> quoted
               then emit quoted tok (read_tokens St_space St_space False [] cs)
             else read_tokens St_space esc quoted tok cs)
          else if sh_quote c then read_tokens (St_quote c) esc quoted tok cs
          else if sh_escape c then read_tokens St_escape St_word quoted tok cs
          else read_tokens St_word esc quoted (tok @ [c]) cs)"

definition shlex_split :: "string \<Rightarrow> error + string list" where
  "shlex_split s = read_tokens St_space St_space False [] s"

section \<open>Reading the edited file back\<close>

text \<open>
  \<open>chain.from_iterable\<close> over the lexed lines, consumed by \<open>list\<close>: the lines are lexed in
  order and the first line the lexer refuses ends the whole call with its error.
\<close>

fun chain_split :: "string list \<Rightarrow> error + string list" where
  "chain_split [] = Inr []"
| "chain_split (x # xs) =
     (case shlex_split x of
        Inl e \<Rightarrow> Inl e
      | Inr ts \<Rightarrow> (case chain_split xs of Inl e \<Rightarrow> Inl e | Inr rest \<Rightarrow> Inr (ts @ rest)))"

definition kept_line :: "string \<Rightarrow> bool" where
  \<comment> \<open>\<open>x and x[0] != "#"\<close>\<close>
  "kept_line x = (x \<noteq> [] \<and> hd x \<noteq> CHR ''#'')"

definition split_args :: "string \<Rightarrow> error + string list" where
  "split_args text = chain_split (filter kept_line (map strip (splitlines False text)))"

section \<open>Option values, descriptors and extensions\<close>

text \<open>
  An extension object, as far as this module looks at it: what \<open>str()\<close> gives for it, its
  \<open>flag\<close> attribute and its \<open>on_edit\<close> attribute, each \<open>None\<close> when the object has none
  (\<open>getattr\<close> with a default). \<open>on_edit\<close> is a dictionary from a kind to a list of flags.
\<close>

record extension =
  ext_str :: string
  flag :: "string option"
  on_edit :: "(string \<rightharpoonup> string list) option"

text \<open>
  The values of the resolved options: \<open>None\<close>, booleans, integers, strings and extension
  objects, and lists and tuples of these. \<open>Opts\<close> is a dictionary from a destination key to
  such a value.
\<close>

datatype atom = ANone | ABool bool | AInt int | AStr string | AExt extension

datatype pyval = PAtom atom | PList "atom list" | PTuple "atom list"

type_synonym opts = "string \<rightharpoonup> pyval"

datatype nargs = NNone | NInt int | NStr string

text \<open>
  An \<open>argparse.Action\<close>, the option descriptor; \<open>action_help\<close> is its attribute \<open>help\<close>.
\<close>

record action =
  option_strings :: "string list"
  dest :: string
  nargs :: nargs
  action_help :: "string option"

text \<open>
  The argument parser gives the renderer one thing, the placeholder syntax of a descriptor:
  \<open>parser._get_formatter()._format_args(action, action.dest)\<close>, code of \<open>argparse\<close> that is
  taken as a parameter.
\<close>

record parser =
  format_args :: "action \<Rightarrow> string"

text \<open>
  The process around the module: the extensions that \<open>iterate_entry_points()\<close> yields,
  \<open>os.linesep\<close>, and \<open>textwrap.wrap(text, 70)\<close> of the standard library, a parameter too.
\<close>

record env =
  entry_points :: "extension list"
  linesep :: string
  wrap_lines :: "string \<Rightarrow> string list"

definition opts_get :: "opts \<Rightarrow> string \<Rightarrow> pyval" where
  \<comment> \<open>\<open>opts.get(key)\<close>\<close>
  "opts_get opts k = (case opts k of None \<Rightarrow> PAtom ANone | Some v \<Rightarrow> v)"

fun truthy_atom :: "atom \<Rightarrow> bool" where
  "truthy_atom ANone = False"
| "truthy_atom (ABool b) = b"
| "truthy_atom (AInt i) = (i \<noteq> 0)"
| "truthy_atom (AStr s) = (s \<noteq> [])"
| "truthy_atom (AExt e) = True"

fun truthy :: "pyval \<Rightarrow> bool" where
  "truthy (PAtom a) = truthy_atom a"
| "truthy (PList xs) = (xs \<noteq> [])"
| "truthy (PTuple xs) = (xs \<noteq> [])"

fun is_None :: "pyval \<Rightarrow> bool" where
  "is_None (PAtom ANone) = True"
| "is_None v = False"

fun show_nat :: "nat \<Rightarrow> string" where
  "show_nat n =
     (if n < 10 then [char_of (48 + n)] else show_nat (n div 10) @ [char_of (48 + n mod 10)])"

declare show_nat.simps [simp del]

definition show_int :: "int \<Rightarrow> string" where
  "show_int i = (if i < 0 then CHR ''-'' # show_nat (nat (- i)) else show_nat (nat i))"

fun py_str :: "atom \<Rightarrow> string" where
  \<comment> \<open>the f-string \<open>f"{a}"\<close>\<close>
  "py_str ANone = ''None''"
| "py_str (ABool b) = (if b then ''True'' else ''False'')"
| "py_str (AInt i) = show_int i"
| "py_str (AStr s) = s"
| "py_str (AExt e) = ext_str e"

fun py_iter :: "pyval \<Rightarrow> error + atom list" where
  \<comment> \<open>what a \<open>for\<close> loop over the value visits; a value that is not iterable raises\<close>
  "py_iter (PList xs) = Inr xs"
| "py_iter (PTuple xs) = Inr xs"
| "py_iter (PAtom (AStr s)) = Inr (map (\<lambda>c. AStr [c]) s)"
| "py_iter (PAtom a) = Inl TypeError"

fun getattr_flag :: "atom \<Rightarrow> string option" where
  \<comment> \<open>\<open>getattr(ext, "flag", None)\<close>\<close>
  "getattr_flag (AExt e) = flag e"
| "getattr_flag a = None"

definition py_last :: "'a list \<Rightarrow> error + 'a" where
  \<comment> \<open>\<open>xs[-1]\<close>\<close>
  "py_last xs = (if xs = [] then Inl IndexError else Inr (last xs))"

section \<open>Quoting for the shell\<close>

definition safe_char :: "char \<Rightarrow> bool" where
  \<comment> \<open>the characters \<open>shlex.quote\<close> leaves alone: \<open>[\w@%+=:,./-]\<close> in ASCII\<close>
  "safe_char c = (c \<in> set (''abcdefghijklmnopqrstuvwxyzABCDEFGHIJKLMNOPQRSTUVWXYZ''
                              @ ''0123456789_@%+=:,./-''))"

definition shlex_quote :: "string \<Rightarrow> string" where
  "shlex_quote s =
     (if s = [] then [CHR 0x27, CHR 0x27]
      else if list_all safe_char s then s
      else [CHR 0x27]
           @ concat (map (\<lambda>c. if c = CHR 0x27
                                 then [CHR 0x27, CHR 0x22, CHR 0x27, CHR 0x22, CHR 0x27]
                                 else [c]) s)
           @ [CHR 0x27])"

section \<open>The suppression sets\<close>

definition CONFIG :: "string \<rightharpoonup> string list" where
  "CONFIG = [''ignore'' \<mapsto> [''--help'', ''--version''],
             ''comment'' \<mapsto> [''--verbose'', ''--very-verbose'']]"

text \<open>
  The state of the process that the module reads and writes: the cache that \<open>lru_cache\<close>
  keeps for \<open>get_config\<close>, most recently used entry first, and the number of times
  \<open>iterate_entry_points()\<close> has been called so far.
\<close>

record pstate =
  cache :: "(string \<times> string set) list"
  walks :: nat

type_synonym 'a run = "pstate \<Rightarrow> (error + 'a) \<times> pstate"

definition then_do :: "'a run \<Rightarrow> ('a \<Rightarrow> 'b run) \<Rightarrow> 'b run" where
  \<comment> \<open>one statement after another; an exception ends the sequence\<close>
  "then_do m f st = (case m st of (Inl e, st') \<Rightarrow> (Inl e, st') | (Inr x, st') \<Rightarrow> f x st')"

definition pure_run :: "error + 'a \<Rightarrow> 'a run" where
  "pure_run r st = (r, st)"

definition reducer :: "string \<Rightarrow> string set \<Rightarrow> extension \<Rightarrow> string set" where
  "reducer kind acc ext =
     (let config_from_ext =
            (case on_edit ext of
               None \<Rightarrow> [''ignore'' \<mapsto> [], ''comment'' \<mapsto> []]
             | Some d \<Rightarrow> d)
      in acc \<union> set (case config_from_ext kind of None \<Rightarrow> [] | Some fs \<Rightarrow> fs))"

definition get_config_uncached :: "env \<Rightarrow> string \<Rightarrow> string set run" where
  \<comment> \<open>the body of \<open>get_config\<close>, under the decorator\<close>
  "get_config_uncached env kind st =
     (case CONFIG kind of
        None \<Rightarrow> (Inl AssertionError, st)
      | Some base \<Rightarrow>
          (Inr (foldl (reducer kind) (set base) (entry_points env)),
           st\<lparr>walks := Suc (walks st)\<rparr>))"

definition maxsize :: nat where
  "maxsize = 2"

definition get_config :: "env \<Rightarrow> string \<Rightarrow> string set run" where
  \<comment> \<open>\<open>lru_cache(maxsize=2)\<close> around the body: a hit moves the entry to the front, a result
      is stored at the front and the oldest entry leaves a full cache, an exception is not
      stored\<close>
  "get_config env kind st =
     (case map_of (cache st) kind of
        Some r \<Rightarrow> (Inr r, st\<lparr>cache := (kind, r) # filter (\<lambda>kv. fst kv \<noteq> kind) (cache st)\<rparr>)
      | None \<Rightarrow>
          (case get_config_uncached env kind st of
             (Inl e, st') \<Rightarrow> (Inl e, st')
           | (Inr r, st') \<Rightarrow>
               (Inr r, st'\<lparr>cache := (kind, r) #
                  (if length (cache st') \<ge> maxsize then butlast (cache st') else cache st')\<rparr>)))"

section \<open>The example renderer\<close>

definition wrap :: "env \<Rightarrow> string option \<Rightarrow> string" where
  "wrap env text =
     py_join (linesep env) (wrap_lines env (case text of None \<Rightarrow> [] | Some t \<Rightarrow> t))"

definition textwrap_indent :: "string \<Rightarrow> string \<Rightarrow> string" where
  \<comment> \<open>\<open>textwrap.indent(text, prefix)\<close>: the prefix goes before every line that is not
      white space only\<close>
  "textwrap_indent text prefix =
     concat (map (\<lambda>line. if strip line \<noteq> [] then prefix @ line else line)
                 (splitlines True text))"

definition comment :: "string \<Rightarrow> string \<Rightarrow> nat \<Rightarrow> string" where
  "comment text comment_mark indent_level =
     textwrap_indent text (replicate indent_level CHR '' '' @ comment_mark @ '' '')"

definition join_block :: "string list \<Rightarrow> string \<Rightarrow> string" where
  "join_block parts sep = py_join sep (filter (\<lambda>p. p \<noteq> []) parts)"

definition long_option :: "action \<Rightarrow> error + string" where
  "long_option action =
     py_last (sort_key length
       (if option_strings action = [] then [[]] else option_strings action))"

definition alternative_flags :: "action \<Rightarrow> string" where
  "alternative_flags action =
     (let opts = butlast (sort_key length (option_strings action))
      in if opts \<noteq> [] then ''(or alternatively: '' @ py_join '' '' opts @ '')'' else [])"

definition has_active_extension :: "action \<Rightarrow> opts \<Rightarrow> error + bool" where
  "has_active_extension action opts =
     (case py_iter (case opts ''extensions'' of None \<Rightarrow> PList [] | Some v \<Rightarrow> v) of
        Inl e \<Rightarrow> Inl e
      | Inr exts \<Rightarrow>
          (let ext_flags = map getattr_flag exts
           in Inr (list_ex (\<lambda>f. Some f \<in> set ext_flags) (option_strings action))))"

definition example_no_value :: "env \<Rightarrow> parser \<Rightarrow> action \<Rightarrow> opts \<Rightarrow> string run" where
  "example_no_value env parser action opts =
     then_do (pure_run (long_option action)) (\<lambda>long.
     then_do (get_config env ''comment'') (\<lambda>commented.
       if long \<notin> commented
          \<and> (dest action \<noteq> ''extensions'' \<and> truthy (opts_get opts (dest action)))
       then pure_run (Inr ('' '' @ long))
       else then_do (pure_run (has_active_extension action opts)) (\<lambda>active.
         if active then pure_run (Inr ('' '' @ long))
         else pure_run (Inr (comment long ''#'' 0)))))"

definition example_with_value :: "env \<Rightarrow> parser \<Rightarrow> action \<Rightarrow> opts \<Rightarrow> string run" where
  "example_with_value env parser action opts =
     then_do (pure_run (long_option action)) (\<lambda>long.
       let arg = opts_get opts (dest action);
           args = (case arg of PList xs \<Rightarrow> xs | PTuple xs \<Rightarrow> xs | PAtom a \<Rightarrow> [a]);
           val = strip (py_join '' '' (map (\<lambda>a. shlex_quote (py_str a)) args));
           placeholder = comment (strip (long @ '' '' @ format_args parser action)) ''#'' 0
       in if is_None arg then pure_run (Inr placeholder)
          else then_do (get_config env ''comment'') (\<lambda>commented.
            if long \<in> commented \<or> val = [] then pure_run (Inr placeholder)
            else pure_run (Inr ('' '' @ long @ '' '' @ val))))"

definition example :: "env \<Rightarrow> parser \<Rightarrow> action \<Rightarrow> opts \<Rightarrow> string run" where
  "example env parser action opts =
     (if nargs action = NInt 0 then example_no_value env parser action opts
      else example_with_value env parser action opts)"

definition INDENT_LEVEL :: nat where
  "INDENT_LEVEL = 4"

definition example_with_help :: "env \<Rightarrow> parser \<Rightarrow> action \<Rightarrow> opts \<Rightarrow> string run" where
  "example_with_help env parser action opts =
     then_do (example env parser action opts) (\<lambda>ex.
       pure_run (Inr (join_block
         [ex,
          comment (alternative_flags action) ''#'' INDENT_LEVEL,
          comment (wrap env (action_help action)) ''#'' INDENT_LEVEL]
         (linesep env))))"

text \<open>
  The generator of \<open>all_examples\<close>, consumed from left to right: the ignored set is asked
  for at every descriptor, and a descriptor that is not ignored is rendered before the next
  one is looked at.
\<close>

fun example_parts :: "env \<Rightarrow> parser \<Rightarrow> opts \<Rightarrow> action list \<Rightarrow> string list run" where
  "example_parts env parser opts [] = pure_run (Inr [])"
| "example_parts env parser opts (a # as) =
     then_do (pure_run (long_option a)) (\<lambda>long.
     then_do (get_config env ''ignore'') (\<lambda>ignored.
       if long \<notin> ignored
       then then_do (example_with_help env parser a opts) (\<lambda>p.
            then_do (example_parts env parser opts as) (\<lambda>ps. pure_run (Inr (p # ps))))
       else example_parts env parser opts as))"

definition all_examples :: "env \<Rightarrow> parser \<Rightarrow> action list \<Rightarrow> opts \<Rightarrow> string run" where
  "all_examples env parser actions opts =
     then_do (example_parts env parser opts actions) (\<lambda>parts.
       pure_run (Inr (join_block parts (linesep env @ linesep env @ linesep env))))"

section \<open>Notions used by the properties\<close>

definition commented_or_blank :: "string \<Rightarrow> bool" where
  \<comment> \<open>a line that is empty, white space only, or a comment after trimming\<close>
  "commented_or_blank line = (\<not> kept_line (strip line))"

definition demo_text :: string where
  "demo_text = ''  # comment'' @ [CHR 0x0A] @ '' --name foo '' @ [CHR 0x0A, CHR 0x0A]"

definition broken_text :: string where
  "broken_text = ''# c'' @ [CHR 0x0A] @ '' --name '' @ [CHR 0x22] @ ''foo'' @ [CHR 0x0A] @ ''--x''"

definition broken_line :: string where
  "broken_line = ''--name '' @ [CHR 0x22] @ ''foo''"

text \<open>
  A small installation for the scenarios: the only installed extension is \<open>Edit\<close> itself, the
  line separator is the line feed, \<open>wrap_lines\<close> is \<open>textwrap.wrap\<close> on the texts it is used
  for here (no text or one short line), and the formatter shows one placeholder.
\<close>

definition edit_ext :: extension where
  "edit_ext = \<lparr>ext_str = ''edit'', flag = Some ''--edit'', on_edit = Some [''ignore'' \<mapsto> [''--edit'']]\<rparr>"

definition demo_env :: env where
  "demo_env = \<lparr>entry_points = [edit_ext], linesep = [CHR 0x0A],
                wrap_lines = (\<lambda>t. if t = [] then [] else [t])\<rparr>"

definition demo_parser :: parser where
  "demo_parser = \<lparr>format_args = (\<lambda>a. ''VALUE'')\<rparr>"

definition fresh :: pstate where
  "fresh = \<lparr>cache = [], walks = 0\<rparr>"

definition help_action :: action where
  "help_action = \<lparr>option_strings = [''-h'', ''--help''], dest = ''help'', nargs = NInt 0,
                   action_help = Some ''show this help message and exit''\<rparr>"

definition name_action :: action where
  "name_action = \<lparr>option_strings = [''-n'', ''--name''], dest = ''name'', nargs = NNone,
                   action_help = Some ''installable name''\<rparr>"

definition license_action :: action where
  "license_action = \<lparr>option_strings = [''-l'', ''--license''], dest = ''license'', nargs = NNone,
                   action_help = Some ''package license''\<rparr>"

definition verbose_action :: action where
  "verbose_action = \<lparr>option_strings = [''-v'', ''--verbose''], dest = ''verbose'', nargs = NInt 0,
                   action_help = Some ''show additional information''\<rparr>"

definition demo_opts :: opts where
  "demo_opts = [''name'' \<mapsto> PAtom (AStr ''myproj''), ''license'' \<mapsto> PAtom (AStr ''MIT'')]"

definition active_doc :: string where
  "active_doc = py_join [CHR 0x0A]
     ['' --name myproj'',
      ''    # (or alternatively: -n)'',
      ''    # installable name'',
      [],
      [],
      '' --license MIT'',
      ''    # (or alternatively: -l)'',
      ''    # package license'']"

definition commented_doc :: string where
  "commented_doc = py_join [CHR 0x0A]
     [''# --verbose'',
      ''    # (or alternatively: -v)'',
      ''    # show additional information'',
      [],
      [],
      ''# --name VALUE'',
      ''    # (or alternatively: -n)'',
      ''    # installable name'',
      [],
      [],
      ''# --license VALUE'',
      ''    # (or alternatively: -l)'',
      ''    # package license'']"

definition verbose_opts :: opts where
  "verbose_opts = [''verbose'' \<mapsto> PAtom (ABool True)]"

text \<open>
  What one extension contributes to a kind: the flags its \<open>on_edit\<close> declares for the kind,
  and nothing when it has no \<open>on_edit\<close> or when its \<open>on_edit\<close> has no entry for the kind.
\<close>

definition contribution :: "extension \<Rightarrow> string \<Rightarrow> string set" where
  "contribution ext kind =
     (case on_edit ext of
        None \<Rightarrow> {}
      | Some d \<Rightarrow> (case d kind of None \<Rightarrow> {} | Some fs \<Rightarrow> set fs))"

text \<open>
  The caches that the process can reach: every key is a kind of \<open>CONFIG\<close> and no key is there
  twice. \<open>config_view\<close> is the set that a call of \<open>get_config\<close> answers with in a state, the
  cached one when there is one.
\<close>

definition cache_ok :: "pstate \<Rightarrow> bool" where
  "cache_ok st = (distinct (map fst (cache st)) \<and> list_all (\<lambda>kv. CONFIG (fst kv) \<noteq> None) (cache st))"

definition config_view :: "env \<Rightarrow> pstate \<Rightarrow> string \<Rightarrow> string set" where
  "config_view env st kind =
     (case map_of (cache st) kind of
        Some r \<Rightarrow> r
      | None \<Rightarrow>
          foldl (reducer kind) (set (case CONFIG kind of None \<Rightarrow> [] | Some base \<Rightarrow> base))
            (entry_points env))"

definition plain_ext :: extension where
  \<comment> \<open>an extension without \<open>on_edit\<close>\<close>
  "plain_ext = \<lparr>ext_str = ''plain'', flag = Some ''--plain'', on_edit = None\<rparr>"

definition quiet_ext :: extension where
  \<comment> \<open>an extension that asks for its own flag to be commented\<close>
  "quiet_ext = \<lparr>ext_str = ''quiet'', flag = Some ''--quiet'',
                 on_edit = Some [''comment'' \<mapsto> [''--quiet'']]\<rparr>"

definition wide_env :: env where
  "wide_env = \<lparr>entry_points = [edit_ext, plain_ext, quiet_ext], linesep = [CHR 0x0A],
                wrap_lines = (\<lambda>t. if t = [] then [] else [t])\<rparr>"

text \<open>
  The values that \<open>example_with_value\<close> joins, \<open>arg if isinstance(arg, (list, tuple)) else
  [arg]\<close>, and the value that \<open>has_active_extension\<close> iterates over,
  \<open>opts.get("extensions", [])\<close>.
\<close>

definition value_list :: "pyval \<Rightarrow> atom list" where
  "value_list arg = (case arg of PList xs \<Rightarrow> xs | PTuple xs \<Rightarrow> xs | PAtom a \<Rightarrow> [a])"

definition extensions_of :: "opts \<Rightarrow> pyval" where
  "extensions_of opts = (case opts ''extensions'' of None \<Rightarrow> PList [] | Some v \<Rightarrow> v)"

text \<open>
  Descriptors and resolved options for the scenarios. The flag of an extension is a
  zero-arity option whose destination is \<open>extensions\<close>.
\<close>

definition plain_action :: action where
  "plain_action = \<lparr>option_strings = [''--plain''], dest = ''extensions'', nargs = NInt 0,
                    action_help = Some ''a plain extension''\<rparr>"

definition quiet_action :: action where
  "quiet_action = \<lparr>option_strings = [''-q'', ''--quiet''], dest = ''extensions'',
                    nargs = NInt 0, action_help = Some ''a quiet extension''\<rparr>"

definition force_action :: action where
  "force_action = \<lparr>option_strings = [''-f'', ''--force''], dest = ''force'', nargs = NInt 0,
                    action_help = Some ''force overwriting''\<rparr>"

definition bare_action :: action where
  \<comment> \<open>a descriptor without option strings, without help\<close>
  "bare_action = \<lparr>option_strings = [], dest = ''bare'', nargs = NInt 0, action_help = None\<rparr>"

definition edit_opts :: opts where
  \<comment> \<open>\<open>Edit\<close> is the only active extension\<close>
  "edit_opts = [''extensions'' \<mapsto> PList [AExt edit_ext]]"

definition quiet_opts :: opts where
  "quiet_opts = [''extensions'' \<mapsto> PList [AExt quiet_ext]]"

definition force_opts :: opts where
  "force_opts = [''force'' \<mapsto> PAtom (ABool True), ''extensions'' \<mapsto> PList [AExt edit_ext]]"

definition empty_name_opts :: opts where
  "empty_name_opts = [''name'' \<mapsto> PAtom (AStr [])]"

definition no_name_opts :: opts where
  "no_name_opts = [''name'' \<mapsto> PList []]"

text \<open>
  The canonical spelling of a descriptor and the block that \<open>example_with_help\<close> returns for
  it in a state, as plain values.
\<close>

definition canonical :: "action \<Rightarrow> string" where
  "canonical a = (case long_option a of Inl e \<Rightarrow> [] | Inr l \<Rightarrow> l)"

definition block :: "env \<Rightarrow> parser \<Rightarrow> opts \<Rightarrow> pstate \<Rightarrow> action \<Rightarrow> string" where
  "block env p opts st a =
     (case fst (example_with_help env p a opts st) of Inl e \<Rightarrow> [] | Inr b \<Rightarrow> b)"

text \<open>
  Two states are alike when their caches can be reached and \<open>get_config\<close> answers the same in
  both. A computation is stable when its result is the same in states that are alike and it
  leaves a state that is like the one it started in.
\<close>

definition alike :: "env \<Rightarrow> pstate \<Rightarrow> pstate \<Rightarrow> bool" where
  "alike env st st' =
     (cache_ok st \<and> cache_ok st'
      \<and> config_view env st ''ignore'' = config_view env st' ''ignore''
      \<and> config_view env st ''comment'' = config_view env st' ''comment'')"

definition stable :: "env \<Rightarrow> 'a run \<Rightarrow> bool" where
  "stable env m =
     (\<forall>st st'. alike env st st' \<longrightarrow> fst (m st) = fst (m st') \<and> alike env st (snd (m st)))"

definition no_opts :: opts where
  "no_opts = Map.empty"

definition verbose_block :: string where
  "verbose_block = py_join [CHR 0x0A]
     [''# --verbose'',
      ''    # (or alternatively: -v)'',
      ''    # show additional information'']"

definition project_action :: action where
  \<comment> \<open>a positional argument: no option strings, one value\<close>
  "project_action = \<lparr>option_strings = [], dest = ''project_path'', nargs = NNone,
                      action_help = Some ''path where to generate the project''\<rparr>"

definition project_opts :: opts where
  "project_opts = [''project_path'' \<mapsto> PAtom (AStr ''my_project'')]"

section \<open>Properties of the lexer and of \<open>split_args\<close>\<close>

lemma emit_Inl: "emit quoted tok rest = Inl e \<Longrightarrow> rest = Inl e"
  by (auto simp: emit_def split: if_splits sum.splits)

lemma read_tokens_error: "read_tokens st esc quoted tok s = Inl e \<Longrightarrow> e = ValueError"
proof (induction st esc quoted tok s rule: read_tokens.induct)
  case (1 st esc quoted tok)
  then show ?case by (auto simp: emit_def split: lex_state.splits if_splits)
next
  case (2 st esc quoted tok c cs)
  show ?case
  proof (cases st)
    case St_space
    with 2 show ?thesis by (auto split: if_splits dest: emit_Inl)
  next
    case St_word
    with 2 show ?thesis by (auto split: if_splits dest: emit_Inl)
  next
    case (St_quote q)
    with 2 show ?thesis by (auto split: if_splits)
  next
    case St_escape
    with 2 show ?thesis by (cases esc) (auto split: if_splits)
  qed
qed

lemma chain_split_all2:
  "list_all2 (\<lambda>x ts. shlex_split x = Inr ts) xs tss \<Longrightarrow> chain_split xs = Inr (concat tss)"
  by (induction xs tss rule: list_all2_induct) auto

lemma chain_split_error:
  "x \<in> set xs \<Longrightarrow> shlex_split x = Inl e \<Longrightarrow> chain_split xs = Inl ValueError"
proof (induction xs)
  case Nil
  then show ?case by simp
next
  case (Cons y ys)
  show ?case
  proof (cases "shlex_split y")
    case (Inl e')
    then have "e' = ValueError" by (simp add: shlex_split_def read_tokens_error)
    with Inl show ?thesis by simp
  next
    case (Inr ts)
    with Cons have "chain_split ys = Inl ValueError" by auto
    with Inr show ?thesis by simp
  qed
qed

lemma chain_split_none:
  "\<forall>x\<in>set xs. \<not> kept_line x \<Longrightarrow> chain_split (filter kept_line xs) = Inr []"
  by (induction xs) auto

text \<open>
  Claim C8. When a line that survives the filter of \<open>split_args\<close> (not empty and not a comment
  after trimming) is refused by the shell lexer, for instance because a quote is never
  closed, the whole call raises: the result is the lexer's \<open>ValueError\<close> and no list, not
  even the tokens of the lines before or after.
\<close>

theorem split_args_error:
  assumes "x \<in> set (filter kept_line (map strip (splitlines False text)))"
    and "shlex_split x = Inl e"
  shows "split_args text = Inl ValueError"
  unfolding split_args_def using assms by (rule chain_split_error)

theorem split_args_error_witness:
  "broken_line \<in> set (filter kept_line (map strip (splitlines False broken_text)))
   \<and> shlex_split broken_line = Inl ValueError
   \<and> split_args broken_text = Inl ValueError"
proof -
  have a: "broken_line \<in> set (filter kept_line (map strip (splitlines False broken_text)))"
    by code_simp
  have b: "shlex_split broken_line = Inl ValueError" by code_simp
  show ?thesis using a b split_args_error [OF a b] by simp
qed

lemma kept_lines_eq:
  "filter kept_line (map strip ls) = map strip (filter (\<lambda>l. \<not> commented_or_blank l) ls)"
  by (induction ls) (auto simp: commented_or_blank_def)

text \<open>
  Claim C4. \<open>split_args\<close> cuts the text into its physical lines, drops every line that is
  empty or whose first character after the leading white space is \<open>#\<close>, gives every other
  line, trimmed, to the shell lexer, and returns the tokens of all the lines in order, as one
  list. The text \<open>"  # comment\n --name foo \n\n"\<close> gives \<open>["--name", "foo"]\<close>, and the
  document rendered for the resolved options \<open>name = "myproj"\<close> and \<open>license = "MIT"\<close> is
  read back as \<open>["--name", "myproj", "--license", "MIT"]\<close>.
\<close>

theorem split_args_tokens:
  "(list_all2 (\<lambda>l ts. shlex_split (strip l) = Inr ts)
       (filter (\<lambda>l. \<not> commented_or_blank l) (splitlines False text)) tss
     \<longrightarrow> split_args text = Inr (concat tss))
   \<and> split_args demo_text = Inr [''--name'', ''foo'']
   \<and> fst (all_examples demo_env demo_parser [help_action, name_action, license_action]
            demo_opts fresh) = Inr active_doc
   \<and> split_args active_doc = Inr [''--name'', ''myproj'', ''--license'', ''MIT'']"
proof -
  have "split_args text = Inr (concat tss)"
    if "list_all2 (\<lambda>l ts. shlex_split (strip l) = Inr ts)
          (filter (\<lambda>l. \<not> commented_or_blank l) (splitlines False text)) tss"
  proof -
    from that have "list_all2 (\<lambda>x ts. shlex_split x = Inr ts)
        (map strip (filter (\<lambda>l. \<not> commented_or_blank l) (splitlines False text))) tss"
      by (simp add: list_all2_map1)
    then show ?thesis
      unfolding split_args_def kept_lines_eq by (rule chain_split_all2)
  qed
  moreover have "split_args demo_text = Inr [''--name'', ''foo'']"
    by code_simp
  moreover have "fst (all_examples demo_env demo_parser [help_action, name_action, license_action]
            demo_opts fresh) = Inr active_doc"
    by code_simp
  moreover have "split_args active_doc = Inr [''--name'', ''myproj'', ''--license'', ''MIT'']"
    by code_simp
  ultimately show ?thesis by blast
qed

theorem split_args_tokens_witness:
  "list_all2 (\<lambda>l ts. shlex_split (strip l) = Inr ts)
       (filter (\<lambda>l. \<not> commented_or_blank l) (splitlines False demo_text)) [[''--name'', ''foo'']]
   \<and> split_args demo_text = Inr (concat [[''--name'', ''foo'']])"
proof -
  have h: "list_all2 (\<lambda>l ts. shlex_split (strip l) = Inr ts)
       (filter (\<lambda>l. \<not> commented_or_blank l) (splitlines False demo_text)) [[''--name'', ''foo'']]"
    by code_simp
  show ?thesis using h split_args_tokens [of demo_text "[[''--name'', ''foo'']]"] by simp
qed

text \<open>
  Claim C5. When a document rendered by \<open>all_examples\<close> has commented and blank lines only,
  that is, every line of it is empty after trimming or begins with \<open>#\<close> after its leading
  white space, \<open>split_args\<close> reads it back as the empty argument list.
\<close>

theorem commented_document_no_args:
  assumes "fst (all_examples env parser actions opts st) = Inr doc"
    and "list_all commented_or_blank (splitlines False doc)"
  shows "split_args doc = Inr []"
proof -
  from assms(2) have "\<forall>x\<in>set (map strip (splitlines False doc)). \<not> kept_line x"
    by (auto simp: list_all_iff commented_or_blank_def)
  then show ?thesis unfolding split_args_def by (rule chain_split_none)
qed

theorem commented_document_no_args_witness:
  "fst (all_examples demo_env demo_parser
          [help_action, verbose_action, name_action, license_action] verbose_opts fresh)
     = Inr commented_doc
   \<and> list_all commented_or_blank (splitlines False commented_doc)
   \<and> split_args commented_doc = Inr []"
proof -
  have a: "fst (all_examples demo_env demo_parser
          [help_action, verbose_action, name_action, license_action] verbose_opts fresh)
     = Inr commented_doc"
    by code_simp
  have b: "list_all commented_or_blank (splitlines False commented_doc)"
    by code_simp
  show ?thesis using a b commented_document_no_args [OF a b] by simp
qed

section \<open>Properties of \<open>get_config\<close>\<close>

lemma CONFIG_dom: "CONFIG kind \<noteq> None \<longleftrightarrow> kind \<in> {''ignore'', ''comment''}"
  by (auto simp: CONFIG_def)

lemma CONFIG_SomeD: "CONFIG kind = Some base \<Longrightarrow> kind \<in> {''ignore'', ''comment''}"
  by (auto simp: CONFIG_def split: if_splits)

lemma reducer_contribution: "reducer kind acc ext = acc \<union> contribution ext kind"
  by (simp add: reducer_def contribution_def split: option.splits)

lemma foldl_reducer:
  "foldl (reducer kind) acc exts = acc \<union> (\<Union>e\<in>set exts. contribution e kind)"
  by (induction exts arbitrary: acc) (auto simp: reducer_contribution)

lemma map_of_drop_key:
  "map_of (filter (\<lambda>kv. fst kv \<noteq> k) xs) k' = (if k' = k then None else map_of xs k')"
  by (induction xs) auto

lemma get_config_hit:
  "map_of (cache st) kind = Some r \<Longrightarrow>
   get_config env kind st =
     (Inr r, st\<lparr>cache := (kind, r) # filter (\<lambda>kv. fst kv \<noteq> kind) (cache st)\<rparr>)"
  by (simp add: get_config_def)

lemma get_config_miss:
  "map_of (cache st) kind = None \<Longrightarrow> CONFIG kind = Some base \<Longrightarrow>
   get_config env kind st =
     (Inr (foldl (reducer kind) (set base) (entry_points env)),
      st\<lparr>walks := Suc (walks st),
         cache := (kind, foldl (reducer kind) (set base) (entry_points env)) #
           (if length (cache st) \<ge> maxsize then butlast (cache st) else cache st)\<rparr>)"
  by (simp add: get_config_def get_config_uncached_def)

lemma get_config_refused:
  "map_of (cache st) kind = None \<Longrightarrow> CONFIG kind = None \<Longrightarrow>
   get_config env kind st = (Inl AssertionError, st)"
  by (simp add: get_config_def get_config_uncached_def)

lemma cache_ok_no_entry:
  "cache_ok st \<Longrightarrow> CONFIG kind = None \<Longrightarrow> map_of (cache st) kind = None"
proof (rule ccontr)
  assume ok: "cache_ok st" and none: "CONFIG kind = None" and "map_of (cache st) kind \<noteq> None"
  then obtain r where "map_of (cache st) kind = Some r" by auto
  then have "(kind, r) \<in> set (cache st)" by (rule map_of_SomeD)
  with ok have "CONFIG kind \<noteq> None" by (auto simp: cache_ok_def list_all_iff)
  with none show False by simp
qed

lemma cache_ok_room:
  assumes "cache_ok st" and "map_of (cache st) kind = None" and "CONFIG kind \<noteq> None"
  shows "length (cache st) < maxsize"
proof -
  let ?keys = "map fst (cache st)"
  from assms(2) have "kind \<notin> set ?keys" by (simp add: map_of_eq_None_iff)
  moreover from assms(1) have "set ?keys \<subseteq> {''ignore'', ''comment''}"
    by (auto simp: cache_ok_def list_all_iff dest: CONFIG_SomeD)
  moreover from assms(3) have "kind \<in> {''ignore'', ''comment''}" by (auto dest: CONFIG_SomeD)
  ultimately have "set ?keys \<subseteq> {''ignore'', ''comment''} - {kind}" by blast
  then have "card (set ?keys) \<le> card ({''ignore'', ''comment''} - {kind})"
    by (intro card_mono) auto
  also from \<open>kind \<in> {''ignore'', ''comment''}\<close> have "\<dots> \<le> 1" by auto
  finally have "card (set ?keys) \<le> 1" .
  moreover from assms(1) have "card (set ?keys) = length ?keys"
    using distinct_card [of ?keys] by (simp add: cache_ok_def)
  ultimately show ?thesis by (simp add: maxsize_def)
qed

lemma get_config_answer:
  assumes "cache_ok st" and "CONFIG kind \<noteq> None"
  shows "fst (get_config env kind st) = Inr (config_view env st kind)"
    and "cache_ok (snd (get_config env kind st))"
    and "config_view env (snd (get_config env kind st)) k = config_view env st k"
proof -
  from assms(2) obtain base where base: "CONFIG kind = Some base" by auto
  show "fst (get_config env kind st) = Inr (config_view env st kind)"
    by (cases "map_of (cache st) kind")
       (simp_all add: get_config_hit get_config_miss [OF _ base] config_view_def base)
  show "cache_ok (snd (get_config env kind st))"
  proof (cases "map_of (cache st) kind")
    case None
    have "length (cache st) < maxsize" using assms(1) None assms(2) by (rule cache_ok_room)
    with None assms(1) base show ?thesis
      by (auto simp: get_config_miss [OF None base] cache_ok_def map_of_eq_None_iff)
  next
    case (Some r)
    with assms(1) base show ?thesis
      by (auto simp: get_config_hit cache_ok_def distinct_map_filter list_all_iff)
  qed
  show "config_view env (snd (get_config env kind st)) k = config_view env st k"
  proof (cases "map_of (cache st) kind")
    case None
    have "length (cache st) < maxsize" using assms(1) None assms(2) by (rule cache_ok_room)
    with None base show ?thesis
      by (auto simp: get_config_miss [OF None base] config_view_def)
  next
    case (Some r)
    then show ?thesis
      by (auto simp: get_config_hit config_view_def map_of_drop_key)
  qed
qed

text \<open>
  Claim C9. In a state whose cache is one that the process can reach, \<open>get_config\<close> called
  with a kind other than \<open>"ignore"\<close> and \<open>"comment"\<close> raises \<open>AssertionError\<close>, returns no
  set and leaves the state as it was; called with one of the two kinds it returns a set.
  (The assertion is run: the interpreter is not started with \<open>-O\<close>.)
\<close>

theorem get_config_kinds:
  assumes "cache_ok st"
  shows "(kind \<notin> {''ignore'', ''comment''} \<longrightarrow> get_config env kind st = (Inl AssertionError, st))
       \<and> (kind \<in> {''ignore'', ''comment''} \<longrightarrow> (\<exists>S. fst (get_config env kind st) = Inr S))"
proof (intro conjI impI)
  assume "kind \<notin> {''ignore'', ''comment''}"
  then have none: "CONFIG kind = None" using CONFIG_dom [of kind] by simp
  with assms have "map_of (cache st) kind = None" by (rule cache_ok_no_entry)
  then show "get_config env kind st = (Inl AssertionError, st)"
    using none by (rule get_config_refused)
next
  assume "kind \<in> {''ignore'', ''comment''}"
  then have "CONFIG kind \<noteq> None" by (auto simp: CONFIG_def)
  with assms show "\<exists>S. fst (get_config env kind st) = Inr S"
    by (auto simp: get_config_answer(1))
qed

theorem get_config_kinds_witness:
  "cache_ok fresh
   \<and> ''exclude'' \<notin> {''ignore'', ''comment''}
   \<and> get_config demo_env ''exclude'' fresh = (Inl AssertionError, fresh)
   \<and> ''ignore'' \<in> {''ignore'', ''comment''}
   \<and> (\<exists>S. fst (get_config demo_env ''ignore'' fresh) = Inr S)"
proof -
  have ok: "cache_ok fresh" by (simp add: cache_ok_def fresh_def)
  show ?thesis
    using ok get_config_kinds [OF ok, of "''exclude''" demo_env]
      get_config_kinds [OF ok, of "''ignore''" demo_env]
    by simp
qed

text \<open>
  Claim C7. For a kind of \<open>CONFIG\<close> that is not in the cache yet, \<open>get_config\<close> returns the
  static set of the kind together with the contributions of all the installed extensions,
  where an extension without \<open>on_edit\<close>, or whose \<open>on_edit\<close> has no entry for the kind,
  contributes nothing and raises nothing; the call walks the extensions once. After that the
  result is kept: whatever one other call of \<open>get_config\<close> happens in between, a later call
  for the same kind returns the same set and does not walk the extensions again, even when
  the installed extensions have changed in the meantime.
\<close>

theorem get_config_union_memo:
  assumes "CONFIG kind = Some base"
    and "cache_ok st"
    and "map_of (cache st) kind = None"
    and "S = set base \<union> (\<Union>e\<in>set (entry_points env). contribution e kind)"
    and "st1 = snd (get_config env kind st)"
    and "st2 = snd (get_config env_b kind_b st1)"
  shows "fst (get_config env kind st) = Inr S
       \<and> walks st1 = Suc (walks st)
       \<and> (on_edit e = None \<longrightarrow> contribution e kind = {})
       \<and> fst (get_config env_c kind st1) = Inr S
       \<and> walks (snd (get_config env_c kind st1)) = walks st1
       \<and> fst (get_config env_c kind st2) = Inr S
       \<and> walks (snd (get_config env_c kind st2)) = walks st2"
proof -
  have room: "length (cache st) < maxsize"
    using assms(2,3,1) by (intro cache_ok_room) auto
  have first: "get_config env kind st =
      (Inr S, st\<lparr>walks := Suc (walks st), cache := (kind, S) # cache st\<rparr>)"
    using room by (simp add: get_config_miss [OF assms(3,1)] foldl_reducer assms(4))
  then have st1: "st1 = st\<lparr>walks := Suc (walks st), cache := (kind, S) # cache st\<rparr>"
    by (simp add: assms(5))
  have hit1: "map_of (cache st1) kind = Some S" by (simp add: st1)
  have ok1: "cache_ok st1"
    using assms(1,2,3) by (auto simp: st1 cache_ok_def map_of_eq_None_iff)
  have hit2: "map_of (cache st2) kind = Some S"
  proof (cases "map_of (cache st1) kind_b")
    case (Some r)
    then show ?thesis
      using hit1 by (cases "kind_b = kind") (auto simp: assms(6) get_config_hit map_of_drop_key)
  next
    case None
    then have neq: "kind_b \<noteq> kind" using hit1 by auto
    show ?thesis
    proof (cases "CONFIG kind_b")
      case None2: None
      then show ?thesis using None hit1 by (simp add: assms(6) get_config_refused)
    next
      case (Some base2)
      have "length (cache st1) < maxsize"
        using ok1 None Some by (intro cache_ok_room) auto
      then show ?thesis
        using neq hit1 by (simp add: assms(6) get_config_miss [OF None Some])
    qed
  qed
  show ?thesis
    using first hit1 hit2
    by (simp add: st1 get_config_hit contribution_def)
qed

theorem get_config_union_memo_witness:
  "CONFIG ''comment'' = Some [''--verbose'', ''--very-verbose'']
   \<and> cache_ok fresh
   \<and> map_of (cache fresh) ''comment'' = None
   \<and> fst (get_config wide_env ''comment'' fresh) = Inr {''--verbose'', ''--very-verbose'', ''--quiet''}
   \<and> walks (snd (get_config wide_env ''comment'' fresh)) = 1
   \<and> fst (get_config demo_env ''comment''
            (snd (get_config wide_env ''ignore'' (snd (get_config wide_env ''comment'' fresh)))))
       = Inr {''--verbose'', ''--very-verbose'', ''--quiet''}"
proof -
  have a: "CONFIG ''comment'' = Some [''--verbose'', ''--very-verbose'']"
    by (simp add: CONFIG_def)
  have b: "cache_ok fresh" by (simp add: cache_ok_def fresh_def)
  have c: "map_of (cache fresh) ''comment'' = None" by (simp add: fresh_def)
  have d: "set [''--verbose'', ''--very-verbose'']
             \<union> (\<Union>e\<in>set (entry_points wide_env). contribution e ''comment'')
           = {''--verbose'', ''--very-verbose'', ''--quiet''}"
    by (auto simp: wide_env_def contribution_def edit_ext_def plain_ext_def quiet_ext_def
             split: if_splits)
  show ?thesis
    using a b c get_config_union_memo [OF a b c d [symmetric] refl refl,
        where env_b = wide_env and kind_b = "''ignore''" and e = plain_ext and env_c = demo_env]
    by (simp add: fresh_def)
qed

section \<open>Properties of the renderer\<close>

lemma then_do_pure [simp]:
  "then_do (pure_run (Inr x)) f = f x"
  "then_do (pure_run (Inl e)) f st = (Inl e, st)"
  by (auto simp: then_do_def pure_run_def)

lemma then_do_result:
  "m st = (Inr x, st') \<Longrightarrow> then_do m f st = f x st'"
  "m st = (Inl e, st') \<Longrightarrow> then_do m f st = (Inl e, st')"
  by (simp_all add: then_do_def)

lemma then_do_fst:
  "fst (m st) = Inr x \<Longrightarrow> then_do m f st = f x (snd (m st))"
  by (cases "m st") (simp add: then_do_def)

lemma fst_pure_run [simp]: "fst (pure_run r st) = r"
  by (simp add: pure_run_def)

lemma snd_pure_run [simp]: "snd (pure_run r st) = st"
  by (simp add: pure_run_def)

lemma long_option_Inr:
  "long_option a =
     Inr (last (sort_key length (if option_strings a = [] then [[]] else option_strings a)))"
proof -
  have "sort_key length (if option_strings a = [] then [[]] else option_strings a) \<noteq> []"
    by (simp split: if_splits) (metis length_0_conv length_sort)
  then show ?thesis by (simp add: long_option_def py_last_def)
qed

text \<open>
  Claim C1. A zero-arity descriptor whose canonical spelling is in the commented set is
  meant to be rendered as a comment whatever the resolved options are. The condition of
  \<open>example_no_value\<close> is \<open>A and B or C\<close>, which Python reads as \<open>(A and B) or C\<close>: when one
  of the descriptor's option strings is the flag of an active extension, the membership in
  the commented set is not looked at any more and the active form \<open>" --flag"\<close> is returned.
  The installation of the witness has an extension that declares its own flag as commented
  and is active.
\<close>

theorem commented_flag_active_extension:
  assumes "long_option a = Inr long"
    and "fst (get_config env ''comment'' st) = Inr cs"
    and "long \<in> cs"
    and "has_active_extension a opts = Inr True"
  shows "fst (example_no_value env p a opts st) = Inr ('' '' @ long)"
  using assms by (simp add: example_no_value_def then_do_fst)

theorem commented_flag_active_extension_witness:
  "long_option quiet_action = Inr ''--quiet''
   \<and> fst (get_config wide_env ''comment'' fresh)
       = Inr {''--verbose'', ''--very-verbose'', ''--quiet''}
   \<and> ''--quiet'' \<in> {''--verbose'', ''--very-verbose'', ''--quiet''}
   \<and> has_active_extension quiet_action quiet_opts = Inr True
   \<and> fst (example_no_value wide_env demo_parser quiet_action quiet_opts fresh)
       = Inr '' --quiet''"
proof -
  have a: "long_option quiet_action = Inr ''--quiet''" by code_simp
  have b: "fst (get_config wide_env ''comment'' fresh)
       = Inr {''--verbose'', ''--very-verbose'', ''--quiet''}" by code_simp
  have c: "''--quiet'' \<in> {''--verbose'', ''--very-verbose'', ''--quiet''}" by simp
  have d: "has_active_extension quiet_action quiet_opts = Inr True" by code_simp
  show ?thesis
    using a b c d commented_flag_active_extension [OF a b c d, of demo_parser] by simp
qed

lemma rstrip_keeps_hd:
  "xs \<noteq> [] \<Longrightarrow> \<not> is_space (hd xs) \<Longrightarrow> rstrip xs \<noteq> [] \<and> hd (rstrip xs) = hd xs"
  by (cases xs) (auto simp: rstrip_def dropWhile_append)

lemma strip_nonempty:
  assumes "xs \<noteq> []" and "\<not> is_space (hd xs)"
  shows "strip xs \<noteq> []"
proof -
  from assms have "rstrip xs \<noteq> [] \<and> hd (rstrip xs) = hd xs" by (rule rstrip_keeps_hd)
  with assms(2) show ?thesis by (cases "rstrip xs") (auto simp: strip_def lstrip_def)
qed

lemma strip_hd: "strip xs \<noteq> [] \<Longrightarrow> \<not> is_space (hd (strip xs))"
  unfolding strip_def lstrip_def by (rule hd_dropWhile)

lemma safe_not_space: "safe_char c \<Longrightarrow> \<not> is_space c"
  by (auto simp: safe_char_def is_space_def)

lemma quote_not_space: "\<not> is_space (CHR 0x27)"
  by (simp add: is_space_def)

lemma shlex_quote_hd: "shlex_quote s \<noteq> [] \<and> \<not> is_space (hd (shlex_quote s))"
  by (cases s) (auto simp: shlex_quote_def safe_not_space quote_not_space)

lemma py_join_hd: "q \<noteq> [] \<Longrightarrow> py_join sep (q # qs) \<noteq> [] \<and> hd (py_join sep (q # qs)) = hd q"
  by (cases qs) auto

lemma joined_nonempty:
  "args \<noteq> [] \<Longrightarrow> strip (py_join '' '' (map (\<lambda>x. shlex_quote (py_str x)) args)) \<noteq> []"
proof (cases args)
  case Nil
  assume "args \<noteq> []"
  with Nil show ?thesis by simp
next
  case (Cons x xs)
  let ?q = "shlex_quote (py_str x)"
  let ?j = "py_join '' '' (?q # map (\<lambda>x. shlex_quote (py_str x)) xs)"
  have q: "?q \<noteq> [] \<and> \<not> is_space (hd ?q)" by (rule shlex_quote_hd)
  then have "?j \<noteq> [] \<and> hd ?j = hd ?q" by (intro py_join_hd) simp
  with q have "strip ?j \<noteq> []" by (intro strip_nonempty) auto
  with Cons show ?thesis by simp
qed

lemma splitlines_from_one:
  "list_all (\<lambda>c. \<not> is_linebreak c) s \<Longrightarrow>
   splitlines_from keepends cur s = (if cur @ s = [] then [] else [cur @ s])"
  by (induction keepends cur s rule: splitlines_from.induct) (auto simp: is_linebreak_def)

lemma comment_one_line:
  assumes "t \<noteq> []" and "\<not> is_space (hd t)" and "list_all (\<lambda>c. \<not> is_linebreak c) t"
  shows "comment t mark n = replicate n CHR '' '' @ mark @ '' '' @ t"
proof -
  from assms(1,2) have "strip t \<noteq> []" by (rule strip_nonempty)
  with assms(1,3) show ?thesis
    by (simp add: comment_def textwrap_indent_def splitlines_def splitlines_from_one)
qed

lemma comment_empty [simp]: "comment [] mark n = []"
  by (simp add: comment_def textwrap_indent_def splitlines_def)

lemma is_None_iff: "is_None v \<longleftrightarrow> v = PAtom ANone"
  by (cases v rule: is_None.cases) auto

lemma get_config_returns:
  "CONFIG kind \<noteq> None \<Longrightarrow> \<exists>S. fst (get_config env kind st) = Inr S"
  by (cases "map_of (cache st) kind") (auto simp: get_config_hit get_config_miss)

lemma CONFIG_comment [simp]: "CONFIG ''comment'' \<noteq> None"
  by (simp add: CONFIG_def)

lemma CONFIG_ignore [simp]: "CONFIG ''ignore'' \<noteq> None"
  by (simp add: CONFIG_def)

text \<open>
  Claim C2. Take a zero-arity descriptor whose canonical spelling is not in the commented set
  and whose destination holds a truthy value. It is rendered in the active form \<open>" --flag"\<close>,
  a space and the canonical spelling, when its destination is not \<open>extensions\<close>, or when one of
  its option strings is the flag of an active extension. When its destination is
  \<open>extensions\<close> and none of its option strings is the flag of an active extension, it is
  rendered as the comment of its canonical spelling, which is \<open>"# --flag"\<close> for a spelling of
  one line that does not begin with white space; and when the \<open>extensions\<close> cannot be iterated
  over, the error of the iteration is raised.
\<close>

theorem example_no_value_active:
  assumes "long_option a = Inr long"
    and "fst (get_config env ''comment'' st) = Inr cs"
    and "long \<notin> cs"
    and "truthy (opts_get opts (dest a))"
  shows "(dest a \<noteq> ''extensions'' \<or> has_active_extension a opts = Inr True
            \<longrightarrow> fst (example_no_value env p a opts st) = Inr ('' '' @ long))
       \<and> (dest a = ''extensions'' \<and> has_active_extension a opts = Inr False
            \<longrightarrow> fst (example_no_value env p a opts st) = Inr (comment long ''#'' 0))
       \<and> (dest a = ''extensions'' \<and> has_active_extension a opts = Inl e
            \<longrightarrow> fst (example_no_value env p a opts st) = Inl e)
       \<and> (long \<noteq> [] \<and> \<not> is_space (hd long) \<and> list_all (\<lambda>c. \<not> is_linebreak c) long
            \<longrightarrow> comment long ''#'' 0 = ''# '' @ long)"
proof (intro conjI impI)
  assume "dest a \<noteq> ''extensions'' \<or> has_active_extension a opts = Inr True"
  with assms show "fst (example_no_value env p a opts st) = Inr ('' '' @ long)"
    by (auto simp: example_no_value_def then_do_fst)
next
  assume "dest a = ''extensions'' \<and> has_active_extension a opts = Inr False"
  with assms show "fst (example_no_value env p a opts st) = Inr (comment long ''#'' 0)"
    by (simp add: example_no_value_def then_do_fst)
next
  assume "dest a = ''extensions'' \<and> has_active_extension a opts = Inl e"
  with assms show "fst (example_no_value env p a opts st) = Inl e"
    by (simp add: example_no_value_def then_do_fst)
next
  assume "long \<noteq> [] \<and> \<not> is_space (hd long) \<and> list_all (\<lambda>c. \<not> is_linebreak c) long"
  then show "comment long ''#'' 0 = ''# '' @ long"
    by (simp add: comment_one_line)
qed

theorem example_no_value_active_witness:
  "long_option force_action = Inr ''--force''
   \<and> fst (get_config demo_env ''comment'' fresh) = Inr {''--verbose'', ''--very-verbose''}
   \<and> ''--force'' \<notin> {''--verbose'', ''--very-verbose''}
   \<and> truthy (opts_get force_opts (dest force_action))
   \<and> dest force_action \<noteq> ''extensions''
   \<and> fst (example_no_value demo_env demo_parser force_action force_opts fresh)
       = Inr '' --force''
   \<and> long_option plain_action = Inr ''--plain''
   \<and> ''--plain'' \<notin> {''--verbose'', ''--very-verbose''}
   \<and> truthy (opts_get edit_opts (dest plain_action))
   \<and> dest plain_action = ''extensions''
   \<and> has_active_extension plain_action edit_opts = Inr False
   \<and> fst (example_no_value demo_env demo_parser plain_action edit_opts fresh)
       = Inr (''# '' @ ''--plain'')"
proof -
  have a: "long_option force_action = Inr ''--force''" by code_simp
  have b: "fst (get_config demo_env ''comment'' fresh) = Inr {''--verbose'', ''--very-verbose''}"
    by code_simp
  have c: "''--force'' \<notin> {''--verbose'', ''--very-verbose''}" by simp
  have d: "truthy (opts_get force_opts (dest force_action))" by code_simp
  have e: "dest force_action \<noteq> ''extensions''" by code_simp
  have a': "long_option plain_action = Inr ''--plain''" by code_simp
  have c': "''--plain'' \<notin> {''--verbose'', ''--very-verbose''}" by simp
  have d': "truthy (opts_get edit_opts (dest plain_action))" by code_simp
  have e': "dest plain_action = ''extensions''" by code_simp
  have f': "has_active_extension plain_action edit_opts = Inr False" by code_simp
  have g': "list_all (\<lambda>c. \<not> is_linebreak c) ''--plain''" by code_simp
  have h': "\<not> is_space (hd ''--plain'')" by code_simp
  note active = example_no_value_active [OF a b c d, of demo_parser]
  note commented = example_no_value_active [OF a' b c' d', of demo_parser]
  show ?thesis
    using a b c d e a' c' d' e' f' g' h' active commented by simp
qed

text \<open>
  The destination \<open>extensions\<close> is shared by the flags of all the extensions, and a truthy
  value there says that some extension is active, not this one: with \<open>Edit\<close> active, the flag
  of another extension is rendered as a comment.
\<close>

theorem truthy_extensions_commented:
  "nargs plain_action = NInt 0
   \<and> truthy (opts_get edit_opts (dest plain_action))
   \<and> long_option plain_action = Inr ''--plain''
   \<and> fst (get_config demo_env ''comment'' fresh) = Inr {''--verbose'', ''--very-verbose''}
   \<and> ''--plain'' \<notin> {''--verbose'', ''--very-verbose''}
   \<and> fst (example_no_value demo_env demo_parser plain_action edit_opts fresh)
       = Inr ''# --plain''"
  by code_simp

text \<open>
  Claim C3. A value-taking descriptor is rendered as the commented placeholder line, made of
  the canonical flag and of the formatter's placeholder syntax and of nothing that comes
  from the resolved options, exactly when its value is absent (\<open>None\<close>), is an empty list or
  tuple, or the flag is in the commented set. In every other case the shell-quoted joined
  value is not empty and the active form \<open>" --flag value1 value2 ..."\<close> is returned. The
  placeholder line is \<open>"# "\<close> followed by the flag and the placeholder when these make one
  line.
\<close>

theorem example_with_value_forms:
  assumes "long_option a = Inr long"
    and "fst (get_config env ''comment'' st) = Inr cs"
    and "arg = opts_get opts (dest a)"
    and "placeholder = strip (long @ '' '' @ format_args p a)"
    and "joined = strip (py_join '' '' (map (\<lambda>x. shlex_quote (py_str x)) (value_list arg)))"
  shows "fst (example_with_value env p a opts st) =
           Inr (if arg \<in> {PAtom ANone, PList [], PTuple []} \<or> long \<in> cs
                then comment placeholder ''#'' 0
                else '' '' @ long @ '' '' @ joined)
       \<and> (arg \<notin> {PAtom ANone, PList [], PTuple []} \<longrightarrow> joined \<noteq> [])
       \<and> (placeholder \<noteq> [] \<and> list_all (\<lambda>c. \<not> is_linebreak c) placeholder
            \<longrightarrow> comment placeholder ''#'' 0 = ''# '' @ placeholder)"
proof (intro conjI impI)
  have empty: "joined = [] \<longleftrightarrow> value_list arg = []"
    using joined_nonempty [of "value_list arg"] by (auto simp: assms(5) strip_def lstrip_def rstrip_def)
  have vl: "value_list arg = [] \<longleftrightarrow> arg \<in> {PList [], PTuple []}"
    by (cases arg) (auto simp: value_list_def)
  show "fst (example_with_value env p a opts st) =
           Inr (if arg \<in> {PAtom ANone, PList [], PTuple []} \<or> long \<in> cs
                then comment placeholder ''#'' 0
                else '' '' @ long @ '' '' @ joined)"
  proof (cases "arg = PAtom ANone")
    case True
    then show ?thesis
      using assms(1,3,4) by (simp add: example_with_value_def Let_def is_None_iff)
  next
    case False
    then show ?thesis
      using assms(1,2,3,4) empty vl
      by (auto simp: example_with_value_def Let_def is_None_iff then_do_fst assms(5)
            value_list_def)
  qed
  show "joined \<noteq> []" if "arg \<notin> {PAtom ANone, PList [], PTuple []}"
    using that empty vl by auto
  show "comment placeholder ''#'' 0 = ''# '' @ placeholder"
    if "placeholder \<noteq> [] \<and> list_all (\<lambda>c. \<not> is_linebreak c) placeholder"
  proof -
    from that have "\<not> is_space (hd placeholder)"
      unfolding assms(4) by (intro strip_hd) simp
    with that show ?thesis by (simp add: comment_one_line)
  qed
qed

theorem example_with_value_forms_witness:
  "long_option name_action = Inr ''--name''
   \<and> fst (get_config demo_env ''comment'' fresh) = Inr {''--verbose'', ''--very-verbose''}
   \<and> opts_get no_name_opts (dest name_action) \<in> {PAtom ANone, PList [], PTuple []}
   \<and> fst (example_with_value demo_env demo_parser name_action no_name_opts fresh)
       = Inr ''# --name VALUE''
   \<and> opts_get demo_opts (dest name_action) \<notin> {PAtom ANone, PList [], PTuple []}
   \<and> fst (example_with_value demo_env demo_parser name_action demo_opts fresh)
       = Inr '' --name myproj''"
proof -
  have a: "long_option name_action = Inr ''--name''" by code_simp
  have b: "fst (get_config demo_env ''comment'' fresh) = Inr {''--verbose'', ''--very-verbose''}"
    by code_simp
  have c: "opts_get no_name_opts (dest name_action) = PList []"
    by (simp add: opts_get_def no_name_opts_def name_action_def)
  have d: "opts_get demo_opts (dest name_action) = PAtom (AStr ''myproj'')"
    by (simp add: opts_get_def demo_opts_def name_action_def)
  have e: "strip (''--name'' @ '' '' @ format_args demo_parser name_action) = ''--name VALUE''"
    by code_simp
  have f: "strip (py_join '' '' (map (\<lambda>x. shlex_quote (py_str x))
             (value_list (PAtom (AStr ''myproj''))))) = ''myproj''"
    by code_simp
  have g: "list_all (\<lambda>c. \<not> is_linebreak c) ''--name VALUE''" by code_simp
  show ?thesis
    using a b g
      example_with_value_forms [OF a b c [symmetric] e [symmetric] refl]
      example_with_value_forms [OF a b d [symmetric] e [symmetric] f [symmetric]]
    by (simp add: c d)
qed

text \<open>
  The empty string is a value like any other: \<open>shlex.quote\<close> turns it into \<open>''\<close>, the joined
  value is not empty, and the line is active.
\<close>

theorem empty_string_value_active:
  "opts_get empty_name_opts (dest name_action) = PAtom (AStr [])
   \<and> fst (example_with_value demo_env demo_parser name_action empty_name_opts fresh)
       = Inr ('' --name '' @ [CHR 0x27, CHR 0x27])"
proof -
  have "opts_get empty_name_opts (dest name_action) = PAtom (AStr [])"
    by (simp add: opts_get_def empty_name_opts_def name_action_def)
  moreover have "fst (example_with_value demo_env demo_parser name_action empty_name_opts fresh)
       = Inr ('' --name '' @ [CHR 0x27, CHR 0x27])"
    by code_simp
  ultimately show ?thesis by simp
qed

lemma then_do_unfold:
  "then_do m f st =
     (case fst (m st) of Inl e \<Rightarrow> (Inl e, snd (m st)) | Inr x \<Rightarrow> f x (snd (m st)))"
  by (cases "m st") (simp add: then_do_def split: sum.splits)

lemma long_option_canonical: "long_option a = Inr (canonical a)"
  by (simp add: canonical_def long_option_Inr)

lemma has_active_returns:
  "py_iter (extensions_of opts) = Inr exts \<Longrightarrow> \<exists>b. has_active_extension a opts = Inr b"
  by (simp add: has_active_extension_def extensions_of_def Let_def)

lemma example_no_value_returns:
  assumes "py_iter (extensions_of opts) = Inr exts"
  shows "\<exists>b. fst (example_no_value env p a opts st) = Inr b"
proof -
  obtain cs where cs: "fst (get_config env ''comment'' st) = Inr cs"
    using get_config_returns [OF CONFIG_comment] by blast
  obtain act where act: "has_active_extension a opts = Inr act"
    using has_active_returns [OF assms] by blast
  show ?thesis
    by (simp add: example_no_value_def long_option_canonical then_do_unfold cs act)
qed

lemma example_with_value_returns: "\<exists>b. fst (example_with_value env p a opts st) = Inr b"
proof -
  obtain cs where cs: "fst (get_config env ''comment'' st) = Inr cs"
    using get_config_returns [OF CONFIG_comment] by blast
  show ?thesis
    by (simp add: example_with_value_def long_option_canonical then_do_unfold cs Let_def)
qed

lemma example_returns:
  "py_iter (extensions_of opts) = Inr exts \<Longrightarrow> \<exists>b. fst (example env p a opts st) = Inr b"
  by (simp add: example_def example_no_value_returns example_with_value_returns)

lemma example_with_help_returns:
  assumes "py_iter (extensions_of opts) = Inr exts"
  shows "fst (example_with_help env p a opts st) = Inr (block env p opts st a)"
proof -
  obtain ex where ex: "fst (example env p a opts st) = Inr ex"
    using example_returns [OF assms] by blast
  show ?thesis
    by (simp add: block_def example_with_help_def then_do_unfold ex)
qed

lemma alike_refl: "cache_ok st \<Longrightarrow> alike env st st"
  by (simp add: alike_def)

lemma alike_sym: "alike env st st' \<Longrightarrow> alike env st' st"
  by (simp add: alike_def)

lemma alike_trans: "alike env st st' \<Longrightarrow> alike env st' st'' \<Longrightarrow> alike env st st''"
  by (simp add: alike_def)

lemma stableD:
  assumes "stable env m" and "alike env st st'"
  shows "fst (m st) = fst (m st')" and "alike env st (snd (m st))"
    and "alike env st (snd (m st'))"
proof -
  show a: "fst (m st) = fst (m st')" and "alike env st (snd (m st))"
    using assms by (auto simp: stable_def)
  from assms(2) have "alike env st' st" by (rule alike_sym)
  with assms(1) have "alike env st' (snd (m st'))" by (auto simp: stable_def)
  with assms(2) show "alike env st (snd (m st'))" by (rule alike_trans)
qed

lemma stable_pure [simp]: "stable env (pure_run r)"
  by (simp add: stable_def alike_def)

lemma stable_then_do:
  assumes m: "stable env m" and f: "\<And>x. stable env (f x)"
  shows "stable env (then_do m f)"
  unfolding stable_def
proof (intro allI impI)
  fix st st'
  assume al: "alike env st st'"
  note d = stableD [OF m al]
  show "fst (then_do m f st) = fst (then_do m f st') \<and> alike env st (snd (then_do m f st))"
  proof (cases "fst (m st)")
    case (Inl e)
    with d(1) have "fst (m st') = Inl e" by simp
    with Inl d(2) show ?thesis
      by (cases "m st"; cases "m st'") (simp add: then_do_def)
  next
    case (Inr x)
    with d(1) have r': "fst (m st') = Inr x" by simp
    from d(2) have "alike env (snd (m st)) st" by (rule alike_sym)
    then have al': "alike env (snd (m st)) (snd (m st'))" using d(3) by (rule alike_trans)
    note e = stableD [OF f al']
    from d(2) e(2) have "alike env st (snd (f x (snd (m st))))" by (rule alike_trans)
    with e(1) show ?thesis by (simp add: then_do_unfold Inr r')
  qed
qed

lemma stable_get_config:
  assumes "kind \<in> {''ignore'', ''comment''}"
  shows "stable env (get_config env kind)"
  unfolding stable_def
proof (intro allI impI)
  fix st st'
  assume al: "alike env st st'"
  from assms have k: "CONFIG kind \<noteq> None" by (auto simp: CONFIG_def)
  from al have ok: "cache_ok st" "cache_ok st'" by (simp_all add: alike_def)
  from al assms have "config_view env st kind = config_view env st' kind"
    by (auto simp: alike_def)
  then have "fst (get_config env kind st) = fst (get_config env kind st')"
    by (simp add: get_config_answer(1) [OF ok(1) k] get_config_answer(1) [OF ok(2) k])
  moreover have "alike env st (snd (get_config env kind st))"
    using ok(1) by (simp add: alike_def get_config_answer(2,3) [OF ok(1) k])
  ultimately show "fst (get_config env kind st) = fst (get_config env kind st')
      \<and> alike env st (snd (get_config env kind st))" by simp
qed

lemma stable_example_with_help: "stable env (example_with_help env p a opts)"
  by (auto simp: example_with_help_def example_def example_no_value_def
        example_with_value_def Let_def
      intro!: stable_then_do stable_get_config)

lemma example_parts_blocks:
  assumes "py_iter (extensions_of opts) = Inr exts" and "alike env st0 st"
  shows "fst (example_parts env p opts as st) =
           Inr (map (block env p opts st0)
                  (filter (\<lambda>a. canonical a \<notin> config_view env st0 ''ignore'') as))"
  using assms(2)
proof (induction as arbitrary: st)
  case Nil
  show ?case by simp
next
  case (Cons a as)
  let ?g = "get_config env ''ignore''"
  let ?h = "example_with_help env p a opts"
  let ?s1 = "snd (?g st)"
  let ?s2 = "snd (?h ?s1)"
  from Cons.prems have ok: "cache_ok st" by (simp add: alike_def)
  have g: "fst (?g st) = Inr (config_view env st0 ''ignore'')"
    using Cons.prems by (simp add: get_config_answer(1) [OF ok CONFIG_ignore] alike_def)
  have "alike env st ?s1"
    using stableD(2) [OF stable_get_config alike_refl [OF ok], of "''ignore''"] by simp
  with Cons.prems have a1: "alike env st0 ?s1" by (rule alike_trans)
  show ?case
  proof (cases "canonical a \<in> config_view env st0 ''ignore''")
    case True
    then show ?thesis
      using Cons.IH [OF a1] by (simp add: long_option_canonical then_do_unfold g)
  next
    case False
    have "fst (?h ?s1) = fst (?h st0)"
      using stableD(1) [OF stable_example_with_help alike_sym [OF a1]] .
    then have h: "fst (?h ?s1) = Inr (block env p opts st0 a)"
      by (simp add: example_with_help_returns [OF assms(1)])
    have a2: "alike env st0 ?s2"
      using stableD(3) [OF stable_example_with_help a1] .
    obtain ps where ps: "fst (example_parts env p opts as ?s2) = Inr ps"
      and "ps = map (block env p opts st0)
                  (filter (\<lambda>a. canonical a \<notin> config_view env st0 ''ignore'') as)"
      using Cons.IH [OF a2] by simp
    with False show ?thesis
      by (simp add: long_option_canonical then_do_unfold g h)
  qed
qed

text \<open>
  Claim C6. In a state whose cache can be reached, and with resolved options whose
  \<open>extensions\<close> can be iterated over, \<open>all_examples\<close> raises nothing and returns this
  document: the descriptors whose canonical spelling is in the ignored set are left out, each
  of the others is rendered by \<open>example_with_help\<close>, the blocks that are the empty string are
  left out too, and the remaining blocks are joined in the order of the descriptors, with
  three line separators between two of them.
\<close>

theorem all_examples_blocks:
  assumes "cache_ok st"
    and "py_iter (extensions_of opts) = Inr exts"
    and "fst (get_config env ''ignore'' st) = Inr ignored"
  shows "fst (all_examples env p as opts st) =
           Inr (py_join (linesep env @ linesep env @ linesep env)
                  (filter (\<lambda>b. b \<noteq> [])
                     (map (block env p opts st) (filter (\<lambda>a. canonical a \<notin> ignored) as))))
       \<and> fst (example_with_help env p a opts st) = Inr (block env p opts st a)"
proof -
  have "ignored = config_view env st ''ignore''"
    using assms(3) by (simp add: get_config_answer(1) [OF assms(1) CONFIG_ignore])
  then have "fst (example_parts env p opts as st) =
      Inr (map (block env p opts st) (filter (\<lambda>a. canonical a \<notin> ignored) as))"
    using example_parts_blocks [OF assms(2) alike_refl [OF assms(1)]] by simp
  then show ?thesis
    by (simp add: all_examples_def then_do_unfold join_block_def
          example_with_help_returns [OF assms(2)])
qed

theorem all_examples_blocks_witness:
  "cache_ok fresh
   \<and> py_iter (extensions_of verbose_opts) = Inr []
   \<and> fst (get_config demo_env ''ignore'' fresh) = Inr {''--help'', ''--version'', ''--edit''}
   \<and> fst (all_examples demo_env demo_parser
            [help_action, verbose_action, name_action, license_action] verbose_opts fresh)
       = Inr commented_doc"
proof -
  have a: "cache_ok fresh" by (simp add: cache_ok_def fresh_def)
  have b: "py_iter (extensions_of verbose_opts) = Inr []"
    by (simp add: extensions_of_def verbose_opts_def)
  have c: "fst (get_config demo_env ''ignore'' fresh) = Inr {''--help'', ''--version'', ''--edit''}"
    by code_simp
  have d: "py_join (linesep demo_env @ linesep demo_env @ linesep demo_env)
             (filter (\<lambda>b. b \<noteq> [])
               (map (block demo_env demo_parser verbose_opts fresh)
                 (filter (\<lambda>a. canonical a \<notin> {''--help'', ''--version'', ''--edit''})
                   [help_action, verbose_action, name_action, license_action])))
           = commented_doc"
    by code_simp
  note doc = all_examples_blocks [OF a b c, of demo_parser
        "[help_action, verbose_action, name_action, license_action]" help_action, unfolded d]
  show ?thesis using a b c doc by simp
qed

text \<open>
  A descriptor that is not ignored can leave no trace in the document: a zero-arity
  descriptor without option strings and without help, whose destination holds nothing, has
  the empty string as its block, and the document is the same with it and without it.
\<close>

theorem empty_block_left_out:
  "fst (get_config demo_env ''ignore'' fresh) = Inr {''--help'', ''--version'', ''--edit''}
   \<and> long_option bare_action = Inr []
   \<and> [] \<notin> {''--help'', ''--version'', ''--edit''}
   \<and> fst (example_with_help demo_env demo_parser bare_action no_opts fresh) = Inr []
   \<and> fst (all_examples demo_env demo_parser [bare_action, verbose_action] no_opts fresh)
       = Inr verbose_block
   \<and> fst (all_examples demo_env demo_parser [verbose_action] no_opts fresh)
       = Inr verbose_block"
  by code_simp

lemma join_block_two_empty: "join_block [x, y] sep = [] \<longleftrightarrow> x = [] \<and> y = []"
  by (auto simp: join_block_def)

text \<open>
  Claim C10. A descriptor without option strings makes no operation of the renderer fail,
  as long as the \<open>extensions\<close> of the resolved options can be iterated over: \<open>long_option\<close>
  returns the empty string, \<open>alternative_flags\<close> returns the empty string and no extension is
  active for it. The line that \<open>example\<close> returns is, for a zero-arity descriptor, one space
  when the empty string is not in the commented set, the destination is not \<open>extensions\<close>
  and holds a truthy value, and the empty string otherwise; for a value-taking descriptor it
  is the commented placeholder when the value is \<open>None\<close>, an empty list or tuple, or the empty
  string is in the commented set, and two spaces and the joined value, which is not empty,
  otherwise. \<open>example_with_help\<close> returns the block made of that line and of the commented
  help, and the block is the empty string exactly when both are.
\<close>

theorem no_option_strings:
  assumes "option_strings a = []"
    and "py_iter (extensions_of opts) = Inr exts"
    and "fst (get_config env ''comment'' st) = Inr cs"
    and "arg = opts_get opts (dest a)"
    and "joined = strip (py_join '' '' (map (\<lambda>x. shlex_quote (py_str x)) (value_list arg)))"
    and "line =
          (if nargs a = NInt 0
           then (if [] \<notin> cs \<and> dest a \<noteq> ''extensions'' \<and> truthy arg then '' '' else [])
           else if arg \<in> {PAtom ANone, PList [], PTuple []} \<or> [] \<in> cs
             then comment (strip ('' '' @ format_args p a)) ''#'' 0
           else ''  '' @ joined)"
    and "help_lines = comment (wrap env (action_help a)) ''#'' INDENT_LEVEL"
  shows "long_option a = Inr []
       \<and> alternative_flags a = []
       \<and> has_active_extension a opts = Inr False
       \<and> fst (example env p a opts st) = Inr line
       \<and> fst (example_with_help env p a opts st) = Inr (join_block [line, help_lines] (linesep env))
       \<and> (join_block [line, help_lines] (linesep env) = [] \<longleftrightarrow> line = [] \<and> help_lines = [])
       \<and> (nargs a \<noteq> NInt 0 \<and> arg \<notin> {PAtom ANone, PList [], PTuple []} \<longrightarrow> joined \<noteq> [])"
proof -
  have long: "long_option a = Inr []"
    using assms(1) by (simp add: long_option_def py_last_def)
  have alt: "alternative_flags a = []"
    using assms(1) by (simp add: alternative_flags_def)
  have act: "has_active_extension a opts = Inr False"
    using assms(1,2) by (simp add: has_active_extension_def extensions_of_def Let_def)
  have empty: "joined = [] \<longleftrightarrow> value_list arg = []"
    using joined_nonempty [of "value_list arg"]
    by (auto simp: assms(5) strip_def lstrip_def rstrip_def)
  have vl: "value_list arg = [] \<longleftrightarrow> arg \<in> {PList [], PTuple []}"
    by (cases arg) (auto simp: value_list_def)
  have ex: "fst (example env p a opts st) = Inr line"
  proof (cases "nargs a = NInt 0")
    case True
    then show ?thesis
      using assms(3,4) by (simp add: example_def example_no_value_def long act then_do_unfold
          assms(6))
  next
    case False
    show ?thesis
    proof (cases "arg = PAtom ANone")
      case True
      then show ?thesis
        using False assms(4)
        by (simp add: example_def example_with_value_def long Let_def is_None_iff assms(6))
    next
      case notNone: False
      then show ?thesis
        using False assms(3,4) empty vl
        by (auto simp: example_def example_with_value_def long Let_def is_None_iff
              then_do_unfold assms(5,6) value_list_def)
    qed
  qed
  have blk: "fst (example_with_help env p a opts st) =
      Inr (join_block [line, help_lines] (linesep env))"
    by (simp add: example_with_help_def then_do_unfold ex alt join_block_def assms(7))
  have "joined \<noteq> []" if "arg \<notin> {PAtom ANone, PList [], PTuple []}"
    using that empty vl by auto
  then show ?thesis
    using long alt act ex blk by (simp add: join_block_two_empty)
qed

theorem no_option_strings_witness:
  "option_strings project_action = []
   \<and> py_iter (extensions_of project_opts) = Inr []
   \<and> fst (get_config demo_env ''comment'' fresh) = Inr {''--verbose'', ''--very-verbose''}
   \<and> nargs project_action \<noteq> NInt 0
   \<and> opts_get project_opts (dest project_action) \<notin> {PAtom ANone, PList [], PTuple []}
   \<and> long_option project_action = Inr []
   \<and> alternative_flags project_action = []
   \<and> fst (example demo_env demo_parser project_action project_opts fresh)
       = Inr ''  my_project''
   \<and> fst (example_with_help demo_env demo_parser project_action project_opts fresh)
       = Inr (''  my_project'' @ [CHR 0x0A] @ ''    # path where to generate the project'')"
proof -
  have a: "option_strings project_action = []" by (simp add: project_action_def)
  have b: "py_iter (extensions_of project_opts) = Inr []"
    by (simp add: extensions_of_def project_opts_def)
  have c: "fst (get_config demo_env ''comment'' fresh) = Inr {''--verbose'', ''--very-verbose''}"
    by code_simp
  have d: "opts_get project_opts (dest project_action) = PAtom (AStr ''my_project'')"
    by (simp add: opts_get_def project_opts_def project_action_def)
  have e: "strip (py_join '' '' (map (\<lambda>x. shlex_quote (py_str x))
             (value_list (PAtom (AStr ''my_project''))))) = ''my_project''"
    by code_simp
  have n: "nargs project_action \<noteq> NInt 0" by (simp add: project_action_def)
  have h: "comment (wrap demo_env (action_help project_action)) ''#'' INDENT_LEVEL
           = ''    # path where to generate the project''"
    by code_simp
  have j: "join_block [''  my_project'', ''    # path where to generate the project'']
             (linesep demo_env)
           = ''  my_project'' @ [CHR 0x0A] @ ''    # path where to generate the project''"
    by code_simp
  note inst = no_option_strings [OF a b c d [symmetric] e [symmetric] refl h [symmetric],
      of demo_parser]
  show ?thesis
    using a b c n inst by (simp add: d j)
qed

text \<open>
  A zero-arity descriptor without option strings and without help, whose destination holds
  nothing, is rendered as the empty line and the empty block, and the document made for it
  alone is empty: nothing of the descriptor is shown.
\<close>

theorem no_option_strings_no_block:
  "option_strings bare_action = []
   \<and> py_iter (extensions_of force_opts) = Inr [AExt edit_ext]
   \<and> fst (example wide_env demo_parser bare_action force_opts fresh) = Inr []
   \<and> fst (example_with_help wide_env demo_parser bare_action force_opts fresh) = Inr []
   \<and> fst (all_examples wide_env demo_parser [bare_action] force_opts fresh) = Inr []"
proof -
  have "option_strings bare_action = []" by (simp add: bare_action_def)
  moreover have "py_iter (extensions_of force_opts) = Inr [AExt edit_ext]"
    by (simp add: extensions_of_def force_opts_def)
  moreover have "fst (example wide_env demo_parser bare_action force_opts fresh) = Inr []"
    by code_simp
  moreover have
    "fst (example_with_help wide_env demo_parser bare_action force_opts fresh) = Inr []"
    by code_simp
  moreover have
    "fst (all_examples wide_env demo_parser [bare_action] force_opts fresh) = Inr []"
    by code_simp
  ultimately show ?thesis by simp
qed

end
